theory Spec2Isabelle
  imports Main "HOL-Library.Sublist"
begin

section \<open>Values shared by the peer store and the address manager\<close>

text \<open>
  Modelled from the spec: the Peer Identifier codec (package \<open>peer-id\<close>) is not part of the
  sources. A Peer Identifier is an immutable value with a canonical string encoding that is
  stable and injective, so it is identified with that encoding: \<open>toB58String\<close> reads the
  encoding and \<open>createFromCID\<close> builds the identifier back from it.
\<close>

datatype PeerId = PeerId (toB58String: string)

text \<open>
  Modelled from the spec: \<open>PeerId.createFromCID\<close>, which is not part of the sources, builds
  the identifier whose string encoding is the given key of a book.
\<close>

definition createFromCID :: "string \<Rightarrow> PeerId" where
  "createFromCID idStr = PeerId idStr"

text \<open>
  \<open>PeerStore.get\<close> receives any JavaScript value and checks it with \<open>PeerId.isPeerId\<close>;
  the values that are not Peer Identifiers are kept apart by their JavaScript kind.
\<close>

datatype js_value =
    JsPeerId (asPeerId: PeerId)
  | JsString string
  | JsNumber int
  | JsUndefined
  | JsNull

fun isPeerId :: "js_value \<Rightarrow> bool" where
  "isPeerId (JsPeerId p) = True"
| "isPeerId v = False"

datatype error = ERR_INVALID_PARAMETERS

text \<open>
  \<open>x || d\<close> on a value that is either \<open>undefined\<close> or an object (an array, also the empty
  one, is truthy).
\<close>

fun js_or :: "'a option \<Rightarrow> 'a \<Rightarrow> 'a" where
  "js_or None d = d"
| "js_or (Some x) d = x"

subsection \<open>The JavaScript \<open>Map\<close>\<close>

text \<open>
  A \<open>Map\<close> keeps its entries in insertion order and holds every key once. It is the list of
  its entries; \<open>set\<close> on a key already present replaces the value in place, on a new key
  it appends the entry; \<open>delete\<close> answers whether the key was present.
\<close>

type_synonym ('k, 'v) js_map = "('k \<times> 'v) list"

definition Map_keys :: "('k, 'v) js_map \<Rightarrow> 'k list" where
  "Map_keys m = map fst m"

definition Map_wf :: "('k, 'v) js_map \<Rightarrow> bool" where
  "Map_wf m = distinct (Map_keys m)"

fun Map_get :: "('k, 'v) js_map \<Rightarrow> 'k \<Rightarrow> 'v option" where
  "Map_get [] k = None"
| "Map_get ((k', v') # m) k = (if k' = k then Some v' else Map_get m k)"

fun Map_set :: "('k, 'v) js_map \<Rightarrow> 'k \<Rightarrow> 'v \<Rightarrow> ('k, 'v) js_map" where
  "Map_set [] k v = [(k, v)]"
| "Map_set ((k', v') # m) k v = (if k' = k then (k, v) # m else (k', v') # Map_set m k v)"

definition Map_delete :: "('k, 'v) js_map \<Rightarrow> 'k \<Rightarrow> bool \<times> ('k, 'v) js_map" where
  "Map_delete m k = (Map_get m k \<noteq> None, filter (\<lambda>e. fst e \<noteq> k) m)"

definition Map_entries :: "('k, 'v) js_map \<Rightarrow> ('k \<times> 'v) list" where
  "Map_entries m = m"

section \<open>The peer store (\<open>src/peer-store/index.js\<close>)\<close>

type_synonym Multiaddr = "(string \<times> string) list"

record Address =
  multiaddr :: Multiaddr

text \<open>
  Modelled from the spec: \<open>address-book.js\<close> and \<open>proto-book.js\<close> are not part of the
  sources. Each book is a map \<open>data\<close> from the string encoding of a Peer Identifier to the
  peer's entry: its addresses in the address book; its protocol identifiers in the protocol
  book, a JavaScript \<open>Set\<close> held as the list of its elements, which is what
  \<open>Array.from\<close> gives. The getter \<open>peers\<close> reads \<open>data\<close> directly; \<open>get\<close> and \<open>delete\<close>
  go through the operations below.
\<close>

type_synonym AddressBook = "(string, Address list) js_map"
type_synonym ProtoBook = "(string, string list) js_map"

text \<open>
  Modelled from the spec: \<open>get(id)\<close> of the address book, the addresses known for the
  peer, or \<open>undefined\<close> when the book has no entry for it.
\<close>

definition AddressBook_get :: "AddressBook \<Rightarrow> PeerId \<Rightarrow> Address list option" where
  "AddressBook_get book peerId = Map_get book (toB58String peerId)"

text \<open>
  Modelled from the spec: \<open>delete(id)\<close> of the address book removes the entry of the peer
  and answers true iff an entry existed.
\<close>

definition AddressBook_delete :: "AddressBook \<Rightarrow> PeerId \<Rightarrow> bool \<times> AddressBook" where
  "AddressBook_delete book peerId = Map_delete book (toB58String peerId)"

text \<open>
  Modelled from the spec: \<open>get(id)\<close> of the protocol book, the protocol identifiers known
  for the peer, or \<open>undefined\<close> when the book has no entry for it.
\<close>

definition ProtoBook_get :: "ProtoBook \<Rightarrow> PeerId \<Rightarrow> string list option" where
  "ProtoBook_get book peerId = Map_get book (toB58String peerId)"

text \<open>
  Modelled from the spec: \<open>delete(id)\<close> of the protocol book removes the entry of the peer
  and answers true iff an entry existed.
\<close>

definition ProtoBook_delete :: "ProtoBook \<Rightarrow> PeerId \<Rightarrow> bool \<times> ProtoBook" where
  "ProtoBook_delete book peerId = Map_delete book (toB58String peerId)"

record Peer =
  peer_id :: PeerId
  addresses :: "Address list"
  protocols :: "string list"

record PeerStore =
  addressBook :: AddressBook
  protoBook :: ProtoBook
  peerIds :: "(string, PeerId) js_map"

text \<open>The constructor: two empty books and no known peer-id.\<close>

definition new_PeerStore :: PeerStore where
  "new_PeerStore = \<lparr>addressBook = [], protoBook = [], peerIds = []\<rparr>"

text \<open>
  The getter \<open>peers\<close>: the first loop runs over the entries of the address book, the second
  over those of the protocol book; both write into the local map \<open>peersData\<close>.
\<close>

definition peers_addressBook_step ::
  "PeerStore \<Rightarrow> (string, Peer) js_map \<Rightarrow> string \<times> Address list \<Rightarrow> (string, Peer) js_map" where
  "peers_addressBook_step ps peersData e =
     (case e of (idStr, addrs) \<Rightarrow>
        let pid = createFromCID idStr
        in Map_set peersData idStr
             \<lparr>peer_id = pid, addresses = addrs,
              protocols = js_or (ProtoBook_get (protoBook ps) pid) []\<rparr>)"

definition peers_protoBook_step ::
  "(string, Peer) js_map \<Rightarrow> string \<times> string list \<Rightarrow> (string, Peer) js_map" where
  "peers_protoBook_step peersData e =
     (case e of (idStr, protos) \<Rightarrow>
        let pData = Map_get peersData idStr
        in if pData = None
           then Map_set peersData idStr
                  \<lparr>peer_id = createFromCID idStr, addresses = [], protocols = protos\<rparr>
           else peersData)"

definition peers :: "PeerStore \<Rightarrow> (string, Peer) js_map" where
  "peers ps =
     (let peersData = foldl (peers_addressBook_step ps) [] (Map_entries (addressBook ps))
      in foldl peers_protoBook_step peersData (Map_entries (protoBook ps)))"

text \<open>
  \<open>delete\<close>: both books are asked to delete, in this order, before the two answers are
  combined; the result is the answer and the store after the call.
\<close>

definition delete :: "PeerStore \<Rightarrow> PeerId \<Rightarrow> bool \<times> PeerStore" where
  "delete ps peerId =
     (let (addressesDeleted, ab) = AddressBook_delete (addressBook ps) peerId;
          (protocolsDeleted, pb) = ProtoBook_delete (protoBook ps) peerId
      in (addressesDeleted \<or> protocolsDeleted, ps\<lparr>addressBook := ab, protoBook := pb\<rparr>))"

text \<open>
  \<open>get\<close>: the thrown error is \<open>Inl\<close>, the returned value \<open>Inr\<close>, with \<open>undefined\<close> as
  \<open>None\<close>; the store after the call is returned beside the result.
\<close>

definition get :: "PeerStore \<Rightarrow> js_value \<Rightarrow> (error + Peer option) \<times> PeerStore" where
  "get ps v =
     (if \<not> isPeerId v then (Inl ERR_INVALID_PARAMETERS, ps)
      else
        let peerId = asPeerId v;
            known = Map_get (peerIds ps) (toB58String peerId);
            addrs = AddressBook_get (addressBook ps) peerId;
            protos = ProtoBook_get (protoBook ps) peerId
        in if addrs = None \<and> protos = None then (Inr None, ps)
           else (Inr (Some \<lparr>peer_id = js_or known peerId,
                            addresses = js_or addrs [],
                            protocols = js_or protos []\<rparr>), ps))"

subsection \<open>The two passes of \<open>peers\<close>, entry by entry\<close>

text \<open>
  The record the first pass writes for an entry of the address book, and the record the
  second pass writes for an entry of the protocol book that the first pass left out.
\<close>

definition addressBook_record :: "PeerStore \<Rightarrow> string \<times> Address list \<Rightarrow> string \<times> Peer" where
  "addressBook_record ps e =
     (fst e, \<lparr>peer_id = createFromCID (fst e), addresses = snd e,
              protocols = js_or (Map_get (protoBook ps) (fst e)) []\<rparr>)"

definition protoBook_record :: "string \<times> string list \<Rightarrow> string \<times> Peer" where
  "protoBook_record e =
     (fst e, \<lparr>peer_id = createFromCID (fst e), addresses = [], protocols = snd e\<rparr>)"

text \<open>
  A store with identifier X in the address book only and identifier Y in the protocol book
  only.
\<close>

definition store_X_Y :: PeerStore where
  "store_X_Y =
     \<lparr>addressBook = [(''QmX'', [\<lparr>multiaddr = [(''ip4'', ''127.0.0.1''), (''tcp'', ''4001'')]\<rparr>])],
      protoBook = [(''QmY'', [''/ipfs/ping/1.0.0''])],
      peerIds = []\<rparr>"

text \<open>A store with identifier Z in both books, after Y in the protocol book.\<close>

definition store_Y_Z :: PeerStore where
  "store_Y_Z =
     \<lparr>addressBook = [(''QmZ'', [\<lparr>multiaddr = [(''ip4'', ''127.0.0.1''), (''tcp'', ''4001'')]\<rparr>])],
      protoBook = [(''QmY'', [''/ipfs/ping/1.0.0'']), (''QmZ'', [''/ipfs/id/1.0.0''])],
      peerIds = []\<rparr>"

section \<open>The address manager, exercised by \<open>test/addresses/address-manager.spec.ts\<close>\<close>

text \<open>
  Modelled from the spec: the Address Value codec (package \<open>multiaddr\<close>) is not part of the
  sources. An Address Value is the canonical sequence of its components, each a protocol
  name with its value, so that equal addresses are equal values whatever text they were
  written in. The identity component of a peer is \<open>/p2p/\<close> followed by the string encoding
  of its Peer Identifier.
\<close>

definition p2p :: "PeerId \<Rightarrow> string \<times> string" where
  "p2p p = (''p2p'', toB58String p)"

text \<open>
  Modelled from the spec: encapsulation of a trailing identity component, the address
  \<open>a + "/p2p/" + p\<close> of the tests.
\<close>

definition encapsulate_p2p :: "Multiaddr \<Rightarrow> PeerId \<Rightarrow> Multiaddr" where
  "encapsulate_p2p ma p = ma @ [p2p p]"

text \<open>
  Modelled from the spec: whether the trailing component of an address is the identity
  component of the peer \<open>p\<close>.
\<close>

definition endsWithPeerId :: "Multiaddr \<Rightarrow> PeerId \<Rightarrow> bool" where
  "endsWithPeerId ma p = (ma \<noteq> [] \<and> last ma = p2p p)"

text \<open>
  Modelled from the spec: the stripping done by \<open>addObservedAddr\<close> and
  \<open>confirmObservedAddr\<close>, which is not part of the sources: "strips the trailing
  self-identity component if the address encodes it suffixed with the local Peer
  Identifier".
\<close>

definition stripPeerId :: "Multiaddr \<Rightarrow> PeerId \<Rightarrow> Multiaddr" where
  "stripPeerId ma p = (if endsWithPeerId ma p then butlast ma else ma)"

text \<open>
  An address that carries the identity component of the peer \<open>p\<close> twice at its end, as
  \<open>a + "/p2p/" + p + "/p2p/" + p\<close>.
\<close>

definition endsWithPeerIdTwice :: "Multiaddr \<Rightarrow> PeerId \<Rightarrow> bool" where
  "endsWithPeerIdTwice ma p = (endsWithPeerId ma p \<and> endsWithPeerId (butlast ma) p)"

text \<open>
  Modelled from the spec: the Address Filter, a pure and total function from a sequence of
  addresses to the addresses permitted for announcement. Its contract: it only removes
  elements and never reorders them.
\<close>

type_synonym AddressFilter = "Multiaddr list \<Rightarrow> Multiaddr list"

definition AddressFilter_contract :: "AddressFilter \<Rightarrow> bool" where
  "AddressFilter_contract flt = (\<forall>addrs. subseq (flt addrs) addrs)"

text \<open>
  Modelled from the spec: the state of the Self Address Manager
  (\<open>src/address-manager/index.ts\<close> is not part of the sources): the local Peer Identifier,
  the Address Filter, the four address categories, and the notifications dispatched so
  far, oldest first.
\<close>

record AddressManager =
  localPeerId :: PeerId
  announceFilter :: AddressFilter
  listen :: "Multiaddr list"
  announce :: "Multiaddr list"
  observed :: "Multiaddr list"
  confirmed :: "Multiaddr list"
  dispatched :: "string list"

text \<open>
  Modelled from the spec: the configuration bundle, with both options optional and empty
  by default.
\<close>

record AddressManagerInit =
  init_listen :: "Multiaddr list option"
  init_announce :: "Multiaddr list option"

definition no_configuration :: AddressManagerInit where
  "no_configuration = \<lparr>init_listen = None, init_announce = None\<rparr>"

text \<open>
  Modelled from the spec: the constructor, from the local Peer Identifier, the Address
  Filter and the configuration bundle.
\<close>

definition DefaultAddressManager ::
  "PeerId \<Rightarrow> AddressFilter \<Rightarrow> AddressManagerInit \<Rightarrow> AddressManager" where
  "DefaultAddressManager p flt init =
     \<lparr>localPeerId = p, announceFilter = flt,
      listen = js_or (init_listen init) [], announce = js_or (init_announce init) [],
      observed = [], confirmed = [], dispatched = []\<rparr>"

text \<open>
  Modelled from the spec: \<open>getListenAddrs()\<close>, the configured listen set,
  order-preserving and unfiltered.
\<close>

definition getListenAddrs :: "AddressManager \<Rightarrow> Multiaddr list" where
  "getListenAddrs am = listen am"

text \<open>
  Modelled from the spec: \<open>getAnnounceAddrs()\<close>, the configured announce set passed
  through the Address Filter. When no announce address is configured, the candidates are
  derived by the transport collaborator, whose answer to "what addresses am I currently
  listening on across active transports" is the second argument, and they pass through
  the filter too. The test "should return listen multiaddrs on get" configures listen
  addresses only, with a transport that reports nothing, and expects no announce address:
  a configured listen address is a candidate only once a transport reports it.
\<close>

definition getAnnounceAddrs :: "AddressManager \<Rightarrow> Multiaddr list \<Rightarrow> Multiaddr list" where
  "getAnnounceAddrs am transportAddrs =
     (if announce am = [] then announceFilter am transportAddrs
      else announceFilter am (announce am))"

text \<open>Modelled from the spec: \<open>getObservedAddrs()\<close>, the current observed set.\<close>

definition getObservedAddrs :: "AddressManager \<Rightarrow> Multiaddr list" where
  "getObservedAddrs am = observed am"

text \<open>
  Modelled from the spec: \<open>addObservedAddr(addr)\<close> strips the address, then inserts it into
  the observed set iff no equal Address Value is already present; it emits no notification.
\<close>

definition addObservedAddr :: "AddressManager \<Rightarrow> Multiaddr \<Rightarrow> AddressManager" where
  "addObservedAddr am addr =
     (let ma = stripPeerId addr (localPeerId am)
      in if ma \<in> set (observed am) then am
         else am\<lparr>observed := observed am @ [ma]\<rparr>)"

text \<open>
  Modelled from the spec: \<open>confirmObservedAddr(addr)\<close> does the same stripping and
  deduplication on the confirmed set, and emits one \<open>change:addresses\<close> notification when
  the stripped address becomes confirmed for the first time.
\<close>

definition confirmObservedAddr :: "AddressManager \<Rightarrow> Multiaddr \<Rightarrow> AddressManager" where
  "confirmObservedAddr am addr =
     (let ma = stripPeerId addr (localPeerId am)
      in if ma \<in> set (confirmed am) then am
         else am\<lparr>confirmed := confirmed am @ [ma],
                 dispatched := dispatched am @ [''change:addresses'']\<rparr>)"

text \<open>
  The listener of the test "should only emit one change:addresses event" counts the
  notifications of that name.
\<close>

definition eventCount :: "AddressManager \<Rightarrow> nat" where
  "eventCount am = length (filter (\<lambda>e. e = ''change:addresses'') (dispatched am))"

text \<open>
  The calls that change the manager, and a sequence of them run from a state: the reachable
  states are the runs from a freshly constructed manager.
\<close>

datatype call = AddObservedAddr Multiaddr | ConfirmObservedAddr Multiaddr

fun call_addr :: "call \<Rightarrow> Multiaddr" where
  "call_addr (AddObservedAddr a) = a"
| "call_addr (ConfirmObservedAddr a) = a"

fun apply_call :: "AddressManager \<Rightarrow> call \<Rightarrow> AddressManager" where
  "apply_call am (AddObservedAddr a) = addObservedAddr am a"
| "apply_call am (ConfirmObservedAddr a) = confirmObservedAddr am a"

fun run :: "AddressManager \<Rightarrow> call list \<Rightarrow> AddressManager" where
  "run am [] = am"
| "run am (c # cs) = run (apply_call am c) cs"

text \<open>
  The values of the tests. The local Peer Identifier of the tests comes from a fixture that
  is not part of the sources; \<open>QmSelf\<close> stands for its string encoding.
\<close>

definition test_peerId :: PeerId where
  "test_peerId = PeerId ''QmSelf''"

definition test_ma :: Multiaddr where
  "test_ma = [(''ip4'', ''123.123.123.123''), (''tcp'', ''39201'')]"

definition listenAddresses :: "Multiaddr list" where
  "listenAddresses = [[(''ip4'', ''127.0.0.1''), (''tcp'', ''15006''), (''ws'', '''')],
                      [(''ip4'', ''127.0.0.1''), (''tcp'', ''15008''), (''ws'', '''')]]"

definition announceAddreses :: "Multiaddr list" where
  "announceAddreses = [[(''dns4'', ''peer.io'')]]"

text \<open>Modelled from the spec: the no-op filter, which returns its input unchanged.\<close>

definition noop_filter :: AddressFilter where
  "noop_filter addrs = addrs"

text \<open>A filter that keeps loopback addresses out of the announcement.\<close>

definition drop_loopback :: AddressFilter where
  "drop_loopback addrs = filter (\<lambda>ma. (''ip4'', ''127.0.0.1'') \<notin> set ma) addrs"

text \<open>
  The addresses a sequence of calls passes to \<open>addObservedAddr\<close>, and those it passes to
  \<open>confirmObservedAddr\<close>.
\<close>

definition added_addrs :: "call list \<Rightarrow> Multiaddr list" where
  "added_addrs calls =
     concat (map (\<lambda>c. case c of AddObservedAddr a \<Rightarrow> [a] | ConfirmObservedAddr a \<Rightarrow> []) calls)"

definition confirmed_addrs :: "call list \<Rightarrow> Multiaddr list" where
  "confirmed_addrs calls =
     concat (map (\<lambda>c. case c of AddObservedAddr a \<Rightarrow> [] | ConfirmObservedAddr a \<Rightarrow> [a]) calls)"

text \<open>
  What every reachable state satisfies: both sets hold every address once, and one
  notification was dispatched for each confirmed address.
\<close>

definition manager_inv :: "AddressManager \<Rightarrow> bool" where
  "manager_inv am =
     (distinct (observed am) \<and> distinct (confirmed am)
      \<and> eventCount am = length (confirmed am))"

text \<open>
  The manager of the tests that configure no address, the test address with the local
  identity component appended once and twice, and a sequence of calls on them.
\<close>

definition fresh_manager :: AddressManager where
  "fresh_manager = DefaultAddressManager test_peerId noop_filter no_configuration"

definition test_ma_self :: Multiaddr where
  "test_ma_self = encapsulate_p2p test_ma test_peerId"

definition test_ma_self_twice :: Multiaddr where
  "test_ma_self_twice = encapsulate_p2p test_ma_self test_peerId"

definition test_calls :: "call list" where
  "test_calls = [AddObservedAddr test_ma, AddObservedAddr test_ma_self,
                 ConfirmObservedAddr test_ma_self]"

section \<open>Properties of the JavaScript \<open>Map\<close>\<close>

lemma Map_get_map_of: "Map_get m k = map_of m k"
  by (induction m) auto

lemma Map_get_None_iff: "Map_get m k = None \<longleftrightarrow> k \<notin> set (Map_keys m)"
  by (simp add: Map_get_map_of map_of_eq_None_iff Map_keys_def)

lemma Map_get_set: "Map_get (Map_set m k v) k' = (if k' = k then Some v else Map_get m k')"
  by (induction m) auto

lemma Map_keys_set: "set (Map_keys (Map_set m k v)) = insert k (set (Map_keys m))"
proof (rule set_eqI)
  fix x
  have "x \<in> set (Map_keys (Map_set m k v)) \<longleftrightarrow> Map_get (Map_set m k v) x \<noteq> None"
    by (simp add: Map_get_None_iff)
  also have "\<dots> \<longleftrightarrow> x = k \<or> Map_get m x \<noteq> None"
    by (simp add: Map_get_set)
  also have "\<dots> \<longleftrightarrow> x \<in> insert k (set (Map_keys m))"
    by (simp add: Map_get_None_iff)
  finally show "x \<in> set (Map_keys (Map_set m k v)) \<longleftrightarrow> x \<in> insert k (set (Map_keys m))" .
qed

lemma Map_set_fresh: "Map_get m k = None \<Longrightarrow> Map_set m k v = m @ [(k, v)]"
  by (induction m) (auto split: if_splits)

lemma Map_wf_set: "Map_wf m \<Longrightarrow> Map_wf (Map_set m k v)"
proof (induction m)
  case Nil
  then show ?case by (simp add: Map_wf_def Map_keys_def)
next
  case (Cons e m)
  obtain k' v' where e: "e = (k', v')" by (cases e)
  have wf: "Map_wf m" and fresh: "k' \<notin> set (Map_keys m)"
    using Cons.prems by (simp_all add: Map_wf_def Map_keys_def e)
  show ?case
  proof (cases "k' = k")
    case True
    then show ?thesis using Cons.prems by (simp add: e Map_wf_def Map_keys_def)
  next
    case False
    have "Map_wf (Map_set m k v)" using Cons.IH wf by simp
    moreover have "k' \<notin> set (Map_keys (Map_set m k v))"
      using fresh False by (simp add: Map_keys_set)
    ultimately show ?thesis using False by (simp add: e Map_wf_def Map_keys_def)
  qed
qed

lemma Map_get_delete:
  "Map_get (snd (Map_delete m k)) k' = (if k' = k then None else Map_get m k')"
  by (induction m) (auto simp: Map_delete_def)

lemma Map_delete_absent: "Map_get m k = None \<Longrightarrow> Map_delete m k = (False, m)"
  by (induction m) (auto simp: Map_delete_def split: if_splits)

lemma Map_wf_delete: "Map_wf m \<Longrightarrow> Map_wf (snd (Map_delete m k))"
  by (simp add: Map_wf_def Map_keys_def Map_delete_def distinct_map_filter)

lemma Map_get_Some_mem: "Map_wf m \<Longrightarrow> Map_get m k = Some v \<longleftrightarrow> (k, v) \<in> set m"
  by (simp add: Map_get_map_of Map_wf_def Map_keys_def)

section \<open>Properties of the peer store\<close>

lemma Map_keys_append: "Map_keys (m @ n) = Map_keys m @ Map_keys n"
  by (simp add: Map_keys_def)

lemma first_pass:
  "distinct (Map_keys acc @ Map_keys ab) \<Longrightarrow>
   foldl (peers_addressBook_step ps) acc ab = acc @ map (addressBook_record ps) ab"
proof (induction ab arbitrary: acc)
  case Nil
  then show ?case by simp
next
  case (Cons e ab)
  obtain idStr addrs where e: "e = (idStr, addrs)" by (cases e)
  have fresh: "Map_get acc idStr = None"
    using Cons.prems by (simp add: Map_get_None_iff e Map_keys_def)
  have step: "peers_addressBook_step ps acc e = acc @ [addressBook_record ps e]"
    by (simp add: peers_addressBook_step_def e Map_set_fresh [OF fresh]
        addressBook_record_def ProtoBook_get_def createFromCID_def)
  have "distinct (Map_keys (acc @ [addressBook_record ps e]) @ Map_keys ab)"
    using Cons.prems by (auto simp: Map_keys_def e addressBook_record_def)
  then show ?case
    using Cons.IH [of "acc @ [addressBook_record ps e]"] by (simp add: step)
qed

lemma second_pass:
  "distinct (Map_keys pb) \<Longrightarrow>
   foldl peers_protoBook_step acc pb =
     acc @ map protoBook_record (filter (\<lambda>e. Map_get acc (fst e) = None) pb)"
proof (induction pb arbitrary: acc)
  case Nil
  then show ?case by simp
next
  case (Cons e pb)
  obtain idStr protos where e: "e = (idStr, protos)" by (cases e)
  have d: "distinct (Map_keys pb)" and notin: "idStr \<notin> set (Map_keys pb)"
    using Cons.prems by (simp_all add: Map_keys_def e)
  show ?case
  proof (cases "Map_get acc idStr")
    case None
    have step: "peers_protoBook_step acc e = acc @ [protoBook_record e]"
      by (simp add: peers_protoBook_step_def e None Map_set_fresh [OF None] protoBook_record_def)
    have same: "filter (\<lambda>x. Map_get (acc @ [protoBook_record e]) (fst x) = None) pb
                = filter (\<lambda>x. Map_get acc (fst x) = None) pb"
    proof (rule filter_cong [OF refl])
      fix x assume "x \<in> set pb"
      then have "fst x \<noteq> idStr" using notin by (auto simp: Map_keys_def)
      then show "(Map_get (acc @ [protoBook_record e]) (fst x) = None)
                 = (Map_get acc (fst x) = None)"
        by (auto simp: Map_get_None_iff Map_keys_def protoBook_record_def e)
    qed
    have keep: "Map_get acc (fst e) = None" using None by (simp add: e)
    have "foldl peers_protoBook_step acc (e # pb)
          = foldl peers_protoBook_step (acc @ [protoBook_record e]) pb"
      by (simp add: step)
    also have "\<dots> = (acc @ [protoBook_record e])
                 @ map protoBook_record (filter (\<lambda>x. Map_get acc (fst x) = None) pb)"
      using Cons.IH [OF d, of "acc @ [protoBook_record e]"] by (simp only: same)
    also have "\<dots> = acc @ map protoBook_record (filter (\<lambda>x. Map_get acc (fst x) = None) (e # pb))"
      using keep by simp
    finally show ?thesis .
  next
    case (Some r)
    have step: "peers_protoBook_step acc e = acc"
      by (simp add: peers_protoBook_step_def e Some)
    have drop: "Map_get acc (fst e) \<noteq> None" using Some by (simp add: e)
    show ?thesis using Cons.IH [OF d, of acc] drop by (simp add: step)
  qed
qed

lemma Map_get_append:
  "Map_get (m @ n) k = (case Map_get m k of Some v \<Rightarrow> Some v | None \<Rightarrow> Map_get n k)"
  by (induction m) auto

lemma Map_get_addressBook_records:
  "Map_get (map (addressBook_record ps) ab) k
   = map_option (\<lambda>addrs. \<lparr>peer_id = createFromCID k, addresses = addrs,
                           protocols = js_or (Map_get (protoBook ps) k) []\<rparr>) (Map_get ab k)"
  by (induction ab) (auto simp: addressBook_record_def)

lemma Map_get_protoBook_records:
  "Map_get (map protoBook_record (filter (\<lambda>e. P (fst e)) pb)) k
   = (if P k then map_option (\<lambda>protos. \<lparr>peer_id = createFromCID k, addresses = [],
                                            protocols = protos\<rparr>) (Map_get pb k)
      else None)"
  by (induction pb) (auto simp: protoBook_record_def)

lemma Map_keys_addressBook_records: "Map_keys (map (addressBook_record ps) ab) = Map_keys ab"
  by (simp add: Map_keys_def addressBook_record_def comp_def)

lemma Map_keys_protoBook_records:
  "Map_keys (map protoBook_record (filter (\<lambda>e. P (fst e)) pb)) = filter P (Map_keys pb)"
  by (simp add: Map_keys_def protoBook_record_def comp_def filter_map)

lemma peers_closed_form:
  assumes "Map_wf (addressBook ps)" and "Map_wf (protoBook ps)"
  shows "peers ps = map (addressBook_record ps) (addressBook ps)
           @ map protoBook_record
               (filter (\<lambda>e. Map_get (addressBook ps) (fst e) = None) (protoBook ps))"
proof -
  have one: "foldl (peers_addressBook_step ps) [] (addressBook ps)
             = map (addressBook_record ps) (addressBook ps)"
    using first_pass [of "[]" "addressBook ps" ps] assms(1)
    by (simp add: Map_wf_def Map_keys_def)
  have same: "\<And>k. (Map_get (map (addressBook_record ps) (addressBook ps)) k = None)
                  = (Map_get (addressBook ps) k = None)"
    by (simp add: Map_get_addressBook_records)
  show ?thesis
    using second_pass [of "protoBook ps" "map (addressBook_record ps) (addressBook ps)"] assms(2)
    by (simp add: peers_def Let_def Map_entries_def one same Map_wf_def)
qed

text \<open>
  Claim C1. For every state of the two books (each a \<open>Map\<close>, so with every key once),
  \<open>peers\<close> returns a map whose keys are exactly the string encodings present in at least
  one book, the keys of the address book first and then, in their order, the keys only the
  protocol book has. An entry of the address book becomes a record with its addresses and
  with the protocols the protocol book holds for that identifier, the empty list when it
  holds none; an entry of the protocol book whose identifier the address book lacks becomes a
  record with its protocols and an empty address list. The result is again a \<open>Map\<close>.
\<close>

theorem peers_two_pass_merge:
  assumes "Map_wf (addressBook ps)" and "Map_wf (protoBook ps)"
  shows "set (Map_keys (peers ps))
           = set (Map_keys (addressBook ps)) \<union> set (Map_keys (protoBook ps))
       \<and> Map_wf (peers ps)
       \<and> Map_keys (peers ps)
           = Map_keys (addressBook ps)
             @ filter (\<lambda>idStr. Map_get (addressBook ps) idStr = None) (Map_keys (protoBook ps))
       \<and> (\<forall>idStr addrs. Map_get (addressBook ps) idStr = Some addrs \<longrightarrow>
            Map_get (peers ps) idStr
              = Some \<lparr>peer_id = createFromCID idStr, addresses = addrs,
                      protocols = (case ProtoBook_get (protoBook ps) (createFromCID idStr) of
                                     Some protos \<Rightarrow> protos | None \<Rightarrow> [])\<rparr>)
       \<and> (\<forall>idStr protos. Map_get (addressBook ps) idStr = None
                          \<and> Map_get (protoBook ps) idStr = Some protos \<longrightarrow>
            Map_get (peers ps) idStr
              = Some \<lparr>peer_id = createFromCID idStr, addresses = [], protocols = protos\<rparr>)"
proof -
  let ?ab = "addressBook ps" and ?pb = "protoBook ps"
  note cf = peers_closed_form [OF assms]
  have keys: "Map_keys (peers ps)
              = Map_keys ?ab @ filter (\<lambda>idStr. Map_get ?ab idStr = None) (Map_keys ?pb)"
    using Map_keys_protoBook_records [of "\<lambda>k. Map_get ?ab k = None" ?pb]
    by (simp add: cf Map_keys_append Map_keys_addressBook_records)
  have keyset: "set (Map_keys (peers ps)) = set (Map_keys ?ab) \<union> set (Map_keys ?pb)"
    by (auto simp: keys Map_get_None_iff)
  have pr: "Map_get (map protoBook_record
                       (filter (\<lambda>e. Map_get ?ab (fst e) = None) ?pb)) k
            = (if Map_get ?ab k = None
               then map_option (\<lambda>protos. \<lparr>peer_id = createFromCID k, addresses = [],
                                                 protocols = protos\<rparr>) (Map_get ?pb k)
               else None)" for k
    using Map_get_protoBook_records [of "\<lambda>k. Map_get ?ab k = None" ?pb k] by simp
  have look: "\<And>k. Map_get (peers ps) k
      = (case Map_get ?ab k of
           Some addrs \<Rightarrow> Some \<lparr>peer_id = createFromCID k, addresses = addrs,
                                 protocols = js_or (Map_get ?pb k) []\<rparr>
         | None \<Rightarrow> map_option (\<lambda>protos. \<lparr>peer_id = createFromCID k, addresses = [],
                                              protocols = protos\<rparr>) (Map_get ?pb k))"
    by (simp add: cf Map_get_append Map_get_addressBook_records pr split: option.splits)
  have first: "\<forall>idStr addrs. Map_get ?ab idStr = Some addrs \<longrightarrow>
            Map_get (peers ps) idStr
              = Some \<lparr>peer_id = createFromCID idStr, addresses = addrs,
                      protocols = (case ProtoBook_get ?pb (createFromCID idStr) of
                                     Some protos \<Rightarrow> protos | None \<Rightarrow> [])\<rparr>"
    by (simp add: look ProtoBook_get_def createFromCID_def split: option.splits)
  have second: "\<forall>idStr protos. Map_get ?ab idStr = None \<and> Map_get ?pb idStr = Some protos \<longrightarrow>
            Map_get (peers ps) idStr
              = Some \<lparr>peer_id = createFromCID idStr, addresses = [], protocols = protos\<rparr>"
    by (simp add: look)
  have wf: "Map_wf (peers ps)"
    using assms by (auto simp: Map_wf_def keys Map_get_None_iff)
  show ?thesis using keyset wf keys first second by blast
qed

theorem peers_two_pass_merge_witness:
  "Map_wf (addressBook store_X_Y) \<and> Map_wf (protoBook store_X_Y)
   \<and> Map_keys (peers store_X_Y) = [''QmX'', ''QmY'']
   \<and> Map_get (peers store_X_Y) ''QmX''
       = Some \<lparr>peer_id = PeerId ''QmX'',
               addresses = [\<lparr>multiaddr = [(''ip4'', ''127.0.0.1''), (''tcp'', ''4001'')]\<rparr>],
               protocols = []\<rparr>
   \<and> Map_get (peers store_X_Y) ''QmY''
       = Some \<lparr>peer_id = PeerId ''QmY'', addresses = [], protocols = [''/ipfs/ping/1.0.0'']\<rparr>
   \<and> Map_wf (addressBook store_Y_Z) \<and> Map_wf (protoBook store_Y_Z)
   \<and> Map_keys (peers store_Y_Z) = [''QmZ'', ''QmY'']
   \<and> Map_get (peers store_Y_Z) ''QmZ''
       = Some \<lparr>peer_id = PeerId ''QmZ'',
               addresses = [\<lparr>multiaddr = [(''ip4'', ''127.0.0.1''), (''tcp'', ''4001'')]\<rparr>],
               protocols = [''/ipfs/id/1.0.0'']\<rparr>"
proof -
  have wf: "Map_wf (addressBook store_X_Y)" "Map_wf (protoBook store_X_Y)"
    by (simp_all add: store_X_Y_def Map_wf_def Map_keys_def)
  have wf': "Map_wf (addressBook store_Y_Z)" "Map_wf (protoBook store_Y_Z)"
    by (simp_all add: store_Y_Z_def Map_wf_def Map_keys_def)
  have xy: "Map_keys (peers store_X_Y) = [''QmX'', ''QmY'']
   \<and> Map_get (peers store_X_Y) ''QmX''
       = Some \<lparr>peer_id = PeerId ''QmX'',
               addresses = [\<lparr>multiaddr = [(''ip4'', ''127.0.0.1''), (''tcp'', ''4001'')]\<rparr>],
               protocols = []\<rparr>
   \<and> Map_get (peers store_X_Y) ''QmY''
       = Some \<lparr>peer_id = PeerId ''QmY'', addresses = [], protocols = [''/ipfs/ping/1.0.0'']\<rparr>"
    using peers_two_pass_merge [OF wf]
    by (simp add: store_X_Y_def Map_keys_def ProtoBook_get_def createFromCID_def)
  have yz: "Map_keys (peers store_Y_Z) = [''QmZ'', ''QmY'']
   \<and> Map_get (peers store_Y_Z) ''QmZ''
       = Some \<lparr>peer_id = PeerId ''QmZ'',
               addresses = [\<lparr>multiaddr = [(''ip4'', ''127.0.0.1''), (''tcp'', ''4001'')]\<rparr>],
               protocols = [''/ipfs/id/1.0.0'']\<rparr>"
    using peers_two_pass_merge [OF wf']
    by (simp add: store_Y_Z_def Map_keys_def ProtoBook_get_def createFromCID_def)
  show ?thesis using wf wf' xy yz by simp
qed

lemma delete_eq:
  "delete ps peerId =
     (Map_get (addressBook ps) (toB58String peerId) \<noteq> None
        \<or> Map_get (protoBook ps) (toB58String peerId) \<noteq> None,
      ps\<lparr>addressBook := snd (Map_delete (addressBook ps) (toB58String peerId)),
         protoBook := snd (Map_delete (protoBook ps) (toB58String peerId))\<rparr>)"
  by (simp add: delete_def AddressBook_delete_def ProtoBook_delete_def Map_delete_def)

text \<open>
  Claim C2. For every identifier, \<open>delete\<close> answers true iff the address book or the
  protocol book had an entry for it before the call (so also when only the protocol book had
  one), leaves neither book with an entry for it, leaves the entries of every other
  identifier as they were, and a following \<open>get\<close> of the identifier returns
  \<open>undefined\<close>.
\<close>

theorem delete_removes_from_both_books:
  "fst (delete ps peerId)
     = (AddressBook_get (addressBook ps) peerId \<noteq> None
        \<or> ProtoBook_get (protoBook ps) peerId \<noteq> None)
   \<and> AddressBook_get (addressBook (snd (delete ps peerId))) peerId = None
   \<and> ProtoBook_get (protoBook (snd (delete ps peerId))) peerId = None
   \<and> (\<forall>other. other \<noteq> peerId \<longrightarrow>
          AddressBook_get (addressBook (snd (delete ps peerId))) other
            = AddressBook_get (addressBook ps) other
        \<and> ProtoBook_get (protoBook (snd (delete ps peerId))) other
            = ProtoBook_get (protoBook ps) other)
   \<and> (AddressBook_get (addressBook ps) peerId = None
        \<and> ProtoBook_get (protoBook ps) peerId \<noteq> None \<longrightarrow> fst (delete ps peerId))
   \<and> get (snd (delete ps peerId)) (JsPeerId peerId) = (Inr None, snd (delete ps peerId))"
proof -
  have neq: "other \<noteq> peerId \<Longrightarrow> toB58String other \<noteq> toB58String peerId" for other
    by (cases other; cases peerId) simp
  show ?thesis
    by (simp add: delete_eq AddressBook_get_def ProtoBook_get_def Map_get_delete get_def neq)
qed

theorem delete_removes_from_both_books_witness:
  "AddressBook_get (addressBook store_X_Y) (PeerId ''QmY'') = None
   \<and> ProtoBook_get (protoBook store_X_Y) (PeerId ''QmY'') \<noteq> None
   \<and> PeerId ''QmX'' \<noteq> PeerId ''QmY''
   \<and> fst (delete store_X_Y (PeerId ''QmY''))
   \<and> AddressBook_get (addressBook (snd (delete store_X_Y (PeerId ''QmY'')))) (PeerId ''QmX'')
       = Some [\<lparr>multiaddr = [(''ip4'', ''127.0.0.1''), (''tcp'', ''4001'')]\<rparr>]
   \<and> fst (get (snd (delete store_X_Y (PeerId ''QmY''))) (JsPeerId (PeerId ''QmY''))) = Inr None"
proof -
  note t = delete_removes_from_both_books [of store_X_Y "PeerId ''QmY''"]
  have pre: "AddressBook_get (addressBook store_X_Y) (PeerId ''QmY'') = None"
    "ProtoBook_get (protoBook store_X_Y) (PeerId ''QmY'') \<noteq> None"
    by (simp_all add: store_X_Y_def AddressBook_get_def ProtoBook_get_def)
  have ne: "PeerId ''QmX'' \<noteq> PeerId ''QmY''" by simp
  have removed: "fst (delete store_X_Y (PeerId ''QmY''))"
    using t [THEN conjunct2, THEN conjunct2, THEN conjunct2, THEN conjunct2, THEN conjunct1] pre
    by simp
  have kept: "AddressBook_get (addressBook (snd (delete store_X_Y (PeerId ''QmY'')))) (PeerId ''QmX'')
              = AddressBook_get (addressBook store_X_Y) (PeerId ''QmX'')"
    using t [THEN conjunct2, THEN conjunct2, THEN conjunct2, THEN conjunct1, rule_format, OF ne]
    by simp
  have gone: "get (snd (delete store_X_Y (PeerId ''QmY''))) (JsPeerId (PeerId ''QmY''))
              = (Inr None, snd (delete store_X_Y (PeerId ''QmY'')))"
    using t [THEN conjunct2, THEN conjunct2, THEN conjunct2, THEN conjunct2, THEN conjunct2]
    by simp
  have x: "AddressBook_get (addressBook store_X_Y) (PeerId ''QmX'')
           = Some [\<lparr>multiaddr = [(''ip4'', ''127.0.0.1''), (''tcp'', ''4001'')]\<rparr>]"
    by (simp add: store_X_Y_def AddressBook_get_def)
  show ?thesis using pre ne removed kept gone x by simp
qed

text \<open>
  Claim C10. For every store and identifier, the answer of \<open>delete\<close> tells whether one of
  the books had an entry for the identifier before the call, and the call removes the entry
  from the address book and from the protocol book, whatever the answer. Hence a \<open>delete\<close>
  that follows it for the same identifier answers false and returns the store unchanged,
  both books included.
\<close>

theorem delete_twice_returns_false:
  "fst (delete ps peerId)
     = (AddressBook_get (addressBook ps) peerId \<noteq> None
        \<or> ProtoBook_get (protoBook ps) peerId \<noteq> None)
   \<and> AddressBook_get (addressBook (snd (delete ps peerId))) peerId = None
   \<and> ProtoBook_get (protoBook (snd (delete ps peerId))) peerId = None
   \<and> toB58String peerId \<notin> set (Map_keys (addressBook (snd (delete ps peerId))))
   \<and> toB58String peerId \<notin> set (Map_keys (protoBook (snd (delete ps peerId))))
   \<and> delete (snd (delete ps peerId)) peerId = (False, snd (delete ps peerId))
   \<and> addressBook (snd (delete (snd (delete ps peerId)) peerId))
       = addressBook (snd (delete ps peerId))
   \<and> protoBook (snd (delete (snd (delete ps peerId)) peerId))
       = protoBook (snd (delete ps peerId))"
proof -
  have answer: "fst (delete ps peerId)
     = (AddressBook_get (addressBook ps) peerId \<noteq> None
        \<or> ProtoBook_get (protoBook ps) peerId \<noteq> None)"
    by (simp add: delete_eq AddressBook_get_def ProtoBook_get_def)
  have gone: "AddressBook_get (addressBook (snd (delete ps peerId))) peerId = None"
    "ProtoBook_get (protoBook (snd (delete ps peerId))) peerId = None"
    by (simp_all add: delete_eq AddressBook_get_def ProtoBook_get_def Map_get_delete)
  have keys: "toB58String peerId \<notin> set (Map_keys (addressBook (snd (delete ps peerId))))"
    "toB58String peerId \<notin> set (Map_keys (protoBook (snd (delete ps peerId))))"
    using gone by (simp_all add: AddressBook_get_def ProtoBook_get_def Map_get_None_iff)
  have again: "delete (snd (delete ps peerId)) peerId = (False, snd (delete ps peerId))"
    by (simp add: delete_eq Map_get_delete Map_delete_absent)
  show ?thesis using answer gone keys again by simp
qed

theorem delete_twice_returns_false_witness:
  "ProtoBook_get (protoBook store_Y_Z) (PeerId ''QmZ'') \<noteq> None
   \<and> fst (delete store_Y_Z (PeerId ''QmZ''))
   \<and> addressBook (snd (delete store_Y_Z (PeerId ''QmZ''))) = []
   \<and> protoBook (snd (delete store_Y_Z (PeerId ''QmZ''))) = [(''QmY'', [''/ipfs/ping/1.0.0''])]
   \<and> fst (delete (snd (delete store_Y_Z (PeerId ''QmZ''))) (PeerId ''QmZ'')) = False
   \<and> snd (delete (snd (delete store_Y_Z (PeerId ''QmZ''))) (PeerId ''QmZ''))
       = snd (delete store_Y_Z (PeerId ''QmZ''))"
proof -
  note t = delete_twice_returns_false [of store_Y_Z "PeerId ''QmZ''"]
  have pre: "ProtoBook_get (protoBook store_Y_Z) (PeerId ''QmZ'') \<noteq> None"
    by (simp add: store_Y_Z_def ProtoBook_get_def)
  have first: "fst (delete store_Y_Z (PeerId ''QmZ''))"
    using t [THEN conjunct1] pre by simp
  have again: "delete (snd (delete store_Y_Z (PeerId ''QmZ''))) (PeerId ''QmZ'')
               = (False, snd (delete store_Y_Z (PeerId ''QmZ'')))"
    using t [THEN conjunct2, THEN conjunct2, THEN conjunct2, THEN conjunct2, THEN conjunct2,
             THEN conjunct1] .
  have books: "addressBook (snd (delete store_Y_Z (PeerId ''QmZ''))) = []"
    "protoBook (snd (delete store_Y_Z (PeerId ''QmZ''))) = [(''QmY'', [''/ipfs/ping/1.0.0''])]"
    by (simp_all add: delete_eq store_Y_Z_def Map_delete_def)
  show ?thesis using pre first again books by simp
qed

text \<open>
  Claim C4. For every value that is not a Peer Identifier, \<open>get\<close> throws the error
  \<open>ERR_INVALID_PARAMETERS\<close> and the store (both books and the known peer-ids) is the
  same after the call.
\<close>

theorem get_rejects_malformed_identifier:
  "\<not> isPeerId v \<Longrightarrow> get ps v = (Inl ERR_INVALID_PARAMETERS, ps)"
  by (simp add: get_def)

theorem get_rejects_malformed_identifier_witness:
  "\<not> isPeerId (JsString ''QmY'')
   \<and> get store_X_Y (JsString ''QmY'') = (Inl ERR_INVALID_PARAMETERS, store_X_Y)"
  using get_rejects_malformed_identifier [of "JsString ''QmY''" store_X_Y] by simp

text \<open>
  Claim C3. For every Peer Identifier, \<open>get\<close> changes nothing in the store; it returns
  \<open>undefined\<close> exactly when neither book has an entry for the identifier; otherwise it
  returns a record with the address list and the protocol list that exist, the missing one
  being the empty list, and with the known peer-id when one is recorded. The value
  \<open>undefined\<close> is different from a record with two empty lists.
\<close>

theorem get_not_found_or_record:
  "snd (get ps (JsPeerId peerId)) = ps
   \<and> (fst (get ps (JsPeerId peerId)) = Inr None
        \<longleftrightarrow> AddressBook_get (addressBook ps) peerId = None
            \<and> ProtoBook_get (protoBook ps) peerId = None)
   \<and> (AddressBook_get (addressBook ps) peerId \<noteq> None
        \<or> ProtoBook_get (protoBook ps) peerId \<noteq> None \<longrightarrow>
       (\<exists>r. fst (get ps (JsPeerId peerId)) = Inr (Some r)
          \<and> addresses r = (case AddressBook_get (addressBook ps) peerId of
                              Some addrs \<Rightarrow> addrs | None \<Rightarrow> [])
          \<and> protocols r = (case ProtoBook_get (protoBook ps) peerId of
                              Some protos \<Rightarrow> protos | None \<Rightarrow> [])
          \<and> peer_id r = (case Map_get (peerIds ps) (toB58String peerId) of
                            Some known \<Rightarrow> known | None \<Rightarrow> peerId)))
   \<and> Inr None \<noteq> (Inr (Some \<lparr>peer_id = peerId, addresses = [], protocols = []\<rparr>)
                     :: error + Peer option)"
  by (auto simp: get_def Let_def split: option.splits)

theorem get_not_found_or_record_witness:
  "ProtoBook_get (protoBook store_X_Y) (PeerId ''QmY'') \<noteq> None
   \<and> fst (get store_X_Y (JsPeerId (PeerId ''QmY'')))
       = Inr (Some \<lparr>peer_id = PeerId ''QmY'', addresses = [],
                    protocols = [''/ipfs/ping/1.0.0'']\<rparr>)
   \<and> fst (get store_X_Y (JsPeerId (PeerId ''QmZ''))) = Inr None"
  using get_not_found_or_record [of store_X_Y "PeerId ''QmY''"]
    get_not_found_or_record [of store_X_Y "PeerId ''QmZ''"]
  by (simp add: store_X_Y_def AddressBook_get_def ProtoBook_get_def get_def)

section \<open>Properties of the address manager\<close>

lemma stripPeerId_encapsulate: "stripPeerId (encapsulate_p2p ma p) p = ma"
  by (simp add: stripPeerId_def endsWithPeerId_def encapsulate_p2p_def)

lemma stripPeerId_plain: "\<not> endsWithPeerId ma p \<Longrightarrow> stripPeerId ma p = ma"
  by (simp add: stripPeerId_def)

lemma localPeerId_addObservedAddr [simp]:
  "localPeerId (addObservedAddr am addr) = localPeerId am"
  by (simp add: addObservedAddr_def Let_def)

lemma localPeerId_confirmObservedAddr [simp]:
  "localPeerId (confirmObservedAddr am addr) = localPeerId am"
  by (simp add: confirmObservedAddr_def Let_def)

lemma localPeerId_apply_call [simp]: "localPeerId (apply_call am c) = localPeerId am"
  by (cases c) simp_all

lemma localPeerId_run [simp]: "localPeerId (run am calls) = localPeerId am"
  by (induction calls arbitrary: am) simp_all

lemma localPeerId_new [simp]: "localPeerId (DefaultAddressManager p flt init) = p"
  by (simp add: DefaultAddressManager_def)

lemma listen_apply_call [simp]: "listen (apply_call am c) = listen am"
  by (cases c) (simp_all add: addObservedAddr_def confirmObservedAddr_def Let_def)

lemma listen_run [simp]: "listen (run am calls) = listen am"
  by (induction calls arbitrary: am) simp_all

lemma announce_apply_call [simp]: "announce (apply_call am c) = announce am"
  by (cases c) (simp_all add: addObservedAddr_def confirmObservedAddr_def Let_def)

lemma announce_run [simp]: "announce (run am calls) = announce am"
  by (induction calls arbitrary: am) simp_all

lemma announceFilter_apply_call [simp]: "announceFilter (apply_call am c) = announceFilter am"
  by (cases c) (simp_all add: addObservedAddr_def confirmObservedAddr_def Let_def)

lemma announceFilter_run [simp]: "announceFilter (run am calls) = announceFilter am"
  by (induction calls arbitrary: am) simp_all


lemma noop_filter_contract: "AddressFilter_contract noop_filter"
  by (simp add: AddressFilter_contract_def noop_filter_def)

lemma drop_loopback_contract: "AddressFilter_contract drop_loopback"
  by (simp add: AddressFilter_contract_def drop_loopback_def)




text \<open>
  Claim C8. When a non-empty announce list is configured, \<open>getAnnounceAddrs()\<close> returns
  that list passed through the Address Filter. For a filter that keeps its contract (it
  only removes elements) the result is a subsequence of the configured list, so it follows
  the input order. The result depends neither on the listen configuration nor on what the
  transport collaborator reports, and no call changes it.
\<close>

theorem getAnnounceAddrs_filters_configured:
  assumes "AddressFilter_contract flt" and "ann \<noteq> []"
  shows "getAnnounceAddrs (DefaultAddressManager p flt
            \<lparr>init_listen = ls, init_announce = Some ann\<rparr>) transportAddrs = flt ann
       \<and> subseq (getAnnounceAddrs (DefaultAddressManager p flt
            \<lparr>init_listen = ls, init_announce = Some ann\<rparr>) transportAddrs) ann
       \<and> getAnnounceAddrs (DefaultAddressManager p flt
            \<lparr>init_listen = ls, init_announce = Some ann\<rparr>) transportAddrs
         = getAnnounceAddrs (DefaultAddressManager p flt
            \<lparr>init_listen = ls', init_announce = Some ann\<rparr>) transportAddrs'
       \<and> getAnnounceAddrs (run (DefaultAddressManager p flt
            \<lparr>init_listen = ls, init_announce = Some ann\<rparr>) calls) transportAddrs = flt ann"
  using assms
  by (simp add: getAnnounceAddrs_def DefaultAddressManager_def AddressFilter_contract_def)

theorem getAnnounceAddrs_filters_configured_witness:
  "AddressFilter_contract noop_filter \<and> announceAddreses \<noteq> []
   \<and> getAnnounceAddrs (DefaultAddressManager test_peerId noop_filter
        \<lparr>init_listen = Some listenAddresses, init_announce = Some announceAddreses\<rparr>) []
      = announceAddreses
   \<and> AddressFilter_contract drop_loopback \<and> announceAddreses @ listenAddresses \<noteq> []
   \<and> getAnnounceAddrs (DefaultAddressManager test_peerId drop_loopback
        \<lparr>init_listen = None, init_announce = Some (announceAddreses @ listenAddresses)\<rparr>)
        listenAddresses
      = announceAddreses"
proof -
  have ne: "announceAddreses \<noteq> []" "announceAddreses @ listenAddresses \<noteq> []"
    by (simp_all add: announceAddreses_def)
  have kept: "noop_filter announceAddreses = announceAddreses"
    by (simp add: noop_filter_def)
  have dropped: "drop_loopback (announceAddreses @ listenAddresses) = announceAddreses"
    by (simp add: drop_loopback_def announceAddreses_def listenAddresses_def)
  show ?thesis
    using getAnnounceAddrs_filters_configured
            [OF noop_filter_contract ne(1), of test_peerId "Some listenAddresses" "[]",
             THEN conjunct1]
          getAnnounceAddrs_filters_configured
            [OF drop_loopback_contract ne(2), of test_peerId None listenAddresses,
             THEN conjunct1]
          noop_filter_contract drop_loopback_contract ne kept dropped
    by simp
qed

lemma observed_addObservedAddr:
  "observed (addObservedAddr am a)
   = (if stripPeerId a (localPeerId am) \<in> set (observed am) then observed am
      else observed am @ [stripPeerId a (localPeerId am)])"
  by (simp add: addObservedAddr_def Let_def)

lemma confirmed_addObservedAddr [simp]: "confirmed (addObservedAddr am a) = confirmed am"
  by (simp add: addObservedAddr_def Let_def)

lemma dispatched_addObservedAddr [simp]: "dispatched (addObservedAddr am a) = dispatched am"
  by (simp add: addObservedAddr_def Let_def)

lemma confirmed_confirmObservedAddr:
  "confirmed (confirmObservedAddr am a)
   = (if stripPeerId a (localPeerId am) \<in> set (confirmed am) then confirmed am
      else confirmed am @ [stripPeerId a (localPeerId am)])"
  by (simp add: confirmObservedAddr_def Let_def)

lemma observed_confirmObservedAddr [simp]: "observed (confirmObservedAddr am a) = observed am"
  by (simp add: confirmObservedAddr_def Let_def)

lemma eventCount_addObservedAddr [simp]: "eventCount (addObservedAddr am a) = eventCount am"
  by (simp add: eventCount_def)

lemma eventCount_confirmObservedAddr:
  "eventCount (confirmObservedAddr am a)
   = (if stripPeerId a (localPeerId am) \<in> set (confirmed am) then eventCount am
      else eventCount am + 1)"
  by (simp add: confirmObservedAddr_def Let_def eventCount_def)

lemma manager_inv_new: "manager_inv (DefaultAddressManager p flt init)"
  by (simp add: manager_inv_def DefaultAddressManager_def eventCount_def)

lemma manager_inv_apply_call: "manager_inv am \<Longrightarrow> manager_inv (apply_call am c)"
  by (cases c)
     (simp_all add: manager_inv_def observed_addObservedAddr confirmed_confirmObservedAddr
        eventCount_confirmObservedAddr)

lemma manager_inv_run: "manager_inv am \<Longrightarrow> manager_inv (run am calls)"
  by (induction calls arbitrary: am) (simp_all add: manager_inv_apply_call)

lemma set_observed_apply_call:
  "set (observed (apply_call am c))
   = set (observed am) \<union> (\<lambda>a. stripPeerId a (localPeerId am)) ` set (added_addrs [c])"
  by (cases c) (auto simp: observed_addObservedAddr added_addrs_def)

lemma set_confirmed_apply_call:
  "set (confirmed (apply_call am c))
   = set (confirmed am) \<union> (\<lambda>a. stripPeerId a (localPeerId am)) ` set (confirmed_addrs [c])"
  by (cases c) (auto simp: confirmed_confirmObservedAddr confirmed_addrs_def)

lemma added_addrs_Cons: "added_addrs (c # cs) = added_addrs [c] @ added_addrs cs"
  by (simp add: added_addrs_def)

lemma confirmed_addrs_Cons: "confirmed_addrs (c # cs) = confirmed_addrs [c] @ confirmed_addrs cs"
  by (simp add: confirmed_addrs_def)

lemma set_observed_run:
  "set (observed (run am calls))
   = set (observed am) \<union> (\<lambda>a. stripPeerId a (localPeerId am)) ` set (added_addrs calls)"
proof (induction calls arbitrary: am)
  case Nil
  then show ?case by (simp add: added_addrs_def)
next
  case (Cons c cs)
  have "set (observed (run am (c # cs))) = set (observed (run (apply_call am c) cs))"
    by simp
  also have "\<dots> = set (observed (apply_call am c))
                 \<union> (\<lambda>a. stripPeerId a (localPeerId am)) ` set (added_addrs cs)"
    using Cons.IH [of "apply_call am c"] by simp
  also have "\<dots> = set (observed am)
                 \<union> (\<lambda>a. stripPeerId a (localPeerId am)) ` set (added_addrs (c # cs))"
    by (simp add: set_observed_apply_call added_addrs_Cons [of c cs] image_Un Un_assoc)
  finally show ?case .
qed

lemma set_confirmed_run:
  "set (confirmed (run am calls))
   = set (confirmed am) \<union> (\<lambda>a. stripPeerId a (localPeerId am)) ` set (confirmed_addrs calls)"
proof (induction calls arbitrary: am)
  case Nil
  then show ?case by (simp add: confirmed_addrs_def)
next
  case (Cons c cs)
  have "set (confirmed (run am (c # cs))) = set (confirmed (run (apply_call am c) cs))"
    by simp
  also have "\<dots> = set (confirmed (apply_call am c))
                 \<union> (\<lambda>a. stripPeerId a (localPeerId am)) ` set (confirmed_addrs cs)"
    using Cons.IH [of "apply_call am c"] by simp
  also have "\<dots> = set (confirmed am)
                 \<union> (\<lambda>a. stripPeerId a (localPeerId am)) ` set (confirmed_addrs (c # cs))"
    by (simp add: set_confirmed_apply_call confirmed_addrs_Cons [of c cs] image_Un Un_assoc)
  finally show ?case .
qed

lemma prefix_observed_apply_call: "prefix (observed am) (observed (apply_call am c))"
  by (cases c) (simp_all add: observed_addObservedAddr)

lemma prefix_confirmed_apply_call: "prefix (confirmed am) (confirmed (apply_call am c))"
  by (cases c) (simp_all add: confirmed_confirmObservedAddr)

lemma prefix_observed_run: "prefix (observed am) (observed (run am calls))"
proof (induction calls arbitrary: am)
  case Nil
  then show ?case by simp
next
  case (Cons c cs)
  have "prefix (observed am) (observed (apply_call am c))"
    by (rule prefix_observed_apply_call)
  also have "prefix (observed (apply_call am c)) (observed (run (apply_call am c) cs))"
    by (rule Cons.IH)
  finally show ?case by simp
qed

lemma prefix_confirmed_run: "prefix (confirmed am) (confirmed (run am calls))"
proof (induction calls arbitrary: am)
  case Nil
  then show ?case by simp
next
  case (Cons c cs)
  have "prefix (confirmed am) (confirmed (apply_call am c))"
    by (rule prefix_confirmed_apply_call)
  also have "prefix (confirmed (apply_call am c)) (confirmed (run (apply_call am c) cs))"
    by (rule Cons.IH)
  finally show ?case by simp
qed

lemma observed_new [simp]: "observed (DefaultAddressManager p flt init) = []"
  by (simp add: DefaultAddressManager_def)

lemma confirmed_new [simp]: "confirmed (DefaultAddressManager p flt init) = []"
  by (simp add: DefaultAddressManager_def)

lemma eventCount_new [simp]: "eventCount (DefaultAddressManager p flt init) = 0"
  by (simp add: DefaultAddressManager_def eventCount_def)

text \<open>
  Claim C7, amended. For every address \<open>a\<close>, three calls of \<open>addObservedAddr(a)\<close> on a
  freshly constructed manager leave \<open>getObservedAddrs()\<close> with the single element
  \<open>stripPeerId a p\<close>, the stripped form of \<open>a\<close>; it is \<open>a\<close> itself when \<open>a\<close> does not end
  with the identity component of the local peer. A call inserts the stripped form iff no
  equal address is already present, so a repeated call changes nothing, and the observed
  set of every reachable state holds no address twice.
\<close>

theorem addObservedAddr_dedupes:
  "getObservedAddrs (addObservedAddr (addObservedAddr (addObservedAddr
       (DefaultAddressManager p flt init) a) a) a) = [stripPeerId a p]
   \<and> (\<not> endsWithPeerId a p \<longrightarrow>
        getObservedAddrs (addObservedAddr (addObservedAddr (addObservedAddr
          (DefaultAddressManager p flt init) a) a) a) = [a])
   \<and> addObservedAddr (addObservedAddr am a) a = addObservedAddr am a
   \<and> getObservedAddrs (addObservedAddr am a)
       = (if stripPeerId a (localPeerId am) \<in> set (getObservedAddrs am) then getObservedAddrs am
          else getObservedAddrs am @ [stripPeerId a (localPeerId am)])
   \<and> distinct (getObservedAddrs (run (DefaultAddressManager p flt init) calls))"
proof -
  have three: "getObservedAddrs (addObservedAddr (addObservedAddr (addObservedAddr
       (DefaultAddressManager p flt init) a) a) a) = [stripPeerId a p]"
    by (simp add: getObservedAddrs_def observed_addObservedAddr)
  have idem: "addObservedAddr (addObservedAddr am a) a = addObservedAddr am a"
    by (simp add: addObservedAddr_def Let_def)
  have one: "getObservedAddrs (addObservedAddr am a)
       = (if stripPeerId a (localPeerId am) \<in> set (getObservedAddrs am) then getObservedAddrs am
          else getObservedAddrs am @ [stripPeerId a (localPeerId am)])"
    by (simp add: getObservedAddrs_def observed_addObservedAddr)
  have dist: "distinct (getObservedAddrs (run (DefaultAddressManager p flt init) calls))"
    using manager_inv_run [OF manager_inv_new, of p flt init calls]
    by (simp add: manager_inv_def getObservedAddrs_def)
  show ?thesis using three idem one dist by (simp add: stripPeerId_plain)
qed

theorem addObservedAddr_dedupes_witness:
  "\<not> endsWithPeerId test_ma test_peerId
   \<and> getObservedAddrs (addObservedAddr (addObservedAddr (addObservedAddr
        fresh_manager test_ma) test_ma) test_ma) = [test_ma]
   \<and> getObservedAddrs (addObservedAddr (addObservedAddr fresh_manager test_ma) test_ma_self)
       = [test_ma]"
proof -
  have plain: "\<not> endsWithPeerId test_ma test_peerId"
    by (simp add: endsWithPeerId_def test_ma_def test_peerId_def p2p_def)
  note t = addObservedAddr_dedupes [of test_peerId noop_filter no_configuration test_ma]
  have three: "getObservedAddrs (addObservedAddr (addObservedAddr (addObservedAddr
        fresh_manager test_ma) test_ma) test_ma) = [test_ma]"
    using t [THEN conjunct2, THEN conjunct1] plain by (simp add: fresh_manager_def)
  have strip: "getObservedAddrs (addObservedAddr (addObservedAddr fresh_manager test_ma) test_ma_self)
       = [test_ma]"
    by (simp add: getObservedAddrs_def observed_addObservedAddr fresh_manager_def
        test_ma_self_def stripPeerId_encapsulate stripPeerId_plain [OF plain])
  show ?thesis using plain three strip by simp
qed

theorem addObservedAddr_dedupes_counterexample:
  "test_ma_self \<notin> set (getObservedAddrs (addObservedAddr (addObservedAddr (addObservedAddr
        fresh_manager test_ma_self) test_ma_self) test_ma_self))
   \<and> getObservedAddrs (addObservedAddr (addObservedAddr (addObservedAddr
        fresh_manager test_ma_self) test_ma_self) test_ma_self) = [test_ma]"
  by (simp add: getObservedAddrs_def observed_addObservedAddr fresh_manager_def
      test_ma_self_def stripPeerId_def endsWithPeerId_def encapsulate_p2p_def p2p_def
      test_ma_def test_peerId_def)

text \<open>
  Claim C5, amended. For every address \<open>a\<close> that does not itself end with the identity
  component of the local peer \<open>p\<close>, three calls of \<open>confirmObservedAddr(a)\<close> followed by one
  on \<open>a\<close> with \<open>/p2p/p\<close> appended dispatch exactly one \<open>change:addresses\<close> notification.
  In every state a call dispatches one notification when the stripped address is not yet
  confirmed and changes nothing when it is; \<open>addObservedAddr\<close> dispatches none; and the
  notifications of a run from a fresh manager are as many as the distinct stripped
  addresses it confirmed.
\<close>

theorem confirmObservedAddr_notifies_once:
  "(\<not> endsWithPeerId a p \<longrightarrow>
      eventCount (confirmObservedAddr (confirmObservedAddr (confirmObservedAddr
        (confirmObservedAddr (DefaultAddressManager p flt init) a) a) a)
        (encapsulate_p2p a p)) = 1)
   \<and> eventCount (confirmObservedAddr am addr)
       = (if stripPeerId addr (localPeerId am) \<in> set (confirmed am) then eventCount am
          else eventCount am + 1)
   \<and> (stripPeerId addr (localPeerId am) \<in> set (confirmed am) \<longrightarrow>
        confirmObservedAddr am addr = am)
   \<and> eventCount (addObservedAddr am addr) = eventCount am
   \<and> eventCount (run (DefaultAddressManager p flt init) calls)
       = card ((\<lambda>x. stripPeerId x p) ` {x. ConfirmObservedAddr x \<in> set calls})"
proof -
  have four: "\<not> endsWithPeerId a p \<Longrightarrow>
      eventCount (confirmObservedAddr (confirmObservedAddr (confirmObservedAddr
        (confirmObservedAddr (DefaultAddressManager p flt init) a) a) a)
        (encapsulate_p2p a p)) = 1"
    by (simp add: eventCount_confirmObservedAddr confirmed_confirmObservedAddr
        stripPeerId_encapsulate stripPeerId_plain)
  have noop: "stripPeerId addr (localPeerId am) \<in> set (confirmed am) \<Longrightarrow>
        confirmObservedAddr am addr = am"
    by (simp add: confirmObservedAddr_def Let_def)
  have cs: "set (confirmed_addrs calls) = {x. ConfirmObservedAddr x \<in> set calls}"
    by (induction calls) (auto simp: confirmed_addrs_def split: call.splits)
  have inv: "manager_inv (run (DefaultAddressManager p flt init) calls)"
    by (rule manager_inv_run [OF manager_inv_new])
  have "eventCount (run (DefaultAddressManager p flt init) calls)
        = card (set (confirmed (run (DefaultAddressManager p flt init) calls)))"
    using inv by (simp add: manager_inv_def distinct_card)
  also have "\<dots> = card ((\<lambda>x. stripPeerId x p) ` {x. ConfirmObservedAddr x \<in> set calls})"
    by (simp add: set_confirmed_run cs)
  finally have total: "eventCount (run (DefaultAddressManager p flt init) calls)
       = card ((\<lambda>x. stripPeerId x p) ` {x. ConfirmObservedAddr x \<in> set calls})" .
  show ?thesis using four noop total by (simp add: eventCount_confirmObservedAddr)
qed

theorem confirmObservedAddr_notifies_once_witness:
  "\<not> endsWithPeerId test_ma test_peerId
   \<and> eventCount (confirmObservedAddr (confirmObservedAddr (confirmObservedAddr
        (confirmObservedAddr fresh_manager test_ma) test_ma) test_ma) test_ma_self) = 1"
proof -
  have plain: "\<not> endsWithPeerId test_ma test_peerId"
    by (simp add: endsWithPeerId_def test_ma_def test_peerId_def p2p_def)
  show ?thesis
    using confirmObservedAddr_notifies_once
            [of test_ma test_peerId noop_filter no_configuration, THEN conjunct1] plain
    by (simp add: fresh_manager_def test_ma_self_def)
qed

theorem confirmObservedAddr_notifies_once_counterexample:
  "eventCount (confirmObservedAddr (confirmObservedAddr (confirmObservedAddr
        (confirmObservedAddr fresh_manager test_ma_self) test_ma_self) test_ma_self)
        (encapsulate_p2p test_ma_self test_peerId)) = 2"
  by (simp add: eventCount_confirmObservedAddr confirmed_confirmObservedAddr fresh_manager_def
      test_ma_self_def stripPeerId_def endsWithPeerId_def encapsulate_p2p_def p2p_def
      test_ma_def test_peerId_def)

lemma set_added_addrs: "set (added_addrs calls) = {x. AddObservedAddr x \<in> set calls}"
  by (induction calls) (auto simp: added_addrs_def split: call.splits)

lemma set_confirmed_addrs: "set (confirmed_addrs calls) = {x. ConfirmObservedAddr x \<in> set calls}"
  by (induction calls) (auto simp: confirmed_addrs_def split: call.splits)

lemma endsWithPeerId_stripPeerId:
  "endsWithPeerId (stripPeerId ma p) p \<longleftrightarrow> endsWithPeerIdTwice ma p"
  by (simp add: stripPeerId_def endsWithPeerIdTwice_def)

lemma stored_from_call:
  assumes "x \<in> set (observed (run (DefaultAddressManager p flt init) calls))
             \<union> set (confirmed (run (DefaultAddressManager p flt init) calls))"
  shows "\<exists>c \<in> set calls. x = stripPeerId (call_addr c) p"
proof -
  have obs: "set (observed (run (DefaultAddressManager p flt init) calls))
             = (\<lambda>a. stripPeerId a p) ` {a. AddObservedAddr a \<in> set calls}"
    by (simp add: set_observed_run set_added_addrs)
  have conf: "set (confirmed (run (DefaultAddressManager p flt init) calls))
              = (\<lambda>a. stripPeerId a p) ` {a. ConfirmObservedAddr a \<in> set calls}"
    by (simp add: set_confirmed_run set_confirmed_addrs)
  from assms show ?thesis unfolding obs conf by force
qed

text \<open>
  Claim C6, amended. In every reachable state of the Self Address Manager, the observed and
  confirmed sets contain no address whose trailing component is the identity component of
  the local peer, provided no address passed to \<open>addObservedAddr\<close> or
  \<open>confirmObservedAddr\<close> carries that component twice at its end: both calls strip one
  trailing identity component before storage. The two sets only grow: no call removes or
  moves an element, each set after further calls extends the set before them.
\<close>

theorem observed_confirmed_stripped_and_growing:
  "((\<forall>c \<in> set calls. \<not> endsWithPeerIdTwice (call_addr c) p) \<longrightarrow>
        (\<forall>x \<in> set (observed (run (DefaultAddressManager p flt init) calls))
               \<union> set (confirmed (run (DefaultAddressManager p flt init) calls)).
           \<not> endsWithPeerId x p))
   \<and> prefix (observed am) (observed (run am further))
   \<and> prefix (confirmed am) (confirmed (run am further))"
proof -
  let ?am = "run (DefaultAddressManager p flt init) calls"
  have clean: "\<not> endsWithPeerId x p"
    if inputs: "\<forall>c \<in> set calls. \<not> endsWithPeerIdTwice (call_addr c) p"
      and x: "x \<in> set (observed ?am) \<union> set (confirmed ?am)" for x
  proof -
    from stored_from_call [OF x]
    obtain c where c: "c \<in> set calls" and eq: "x = stripPeerId (call_addr c) p"
      by blast
    from inputs c have "\<not> endsWithPeerIdTwice (call_addr c) p" by simp
    then show ?thesis by (simp add: eq endsWithPeerId_stripPeerId)
  qed
  show ?thesis
    using clean prefix_observed_run [of am further] prefix_confirmed_run [of am further]
    by blast
qed

theorem observed_confirmed_stripped_and_growing_witness:
  "\<not> endsWithPeerIdTwice test_ma test_peerId
   \<and> \<not> endsWithPeerIdTwice test_ma_self test_peerId
   \<and> endsWithPeerId test_ma_self test_peerId
   \<and> observed (run fresh_manager test_calls) = [test_ma]
   \<and> confirmed (run fresh_manager test_calls) = [test_ma]
   \<and> \<not> endsWithPeerId test_ma test_peerId"
proof -
  have one: "\<not> endsWithPeerIdTwice test_ma test_peerId"
    by (simp add: endsWithPeerIdTwice_def endsWithPeerId_def p2p_def test_ma_def
        test_peerId_def)
  have two: "\<not> endsWithPeerIdTwice test_ma_self test_peerId"
    by (simp add: endsWithPeerIdTwice_def test_ma_self_def endsWithPeerId_def
        encapsulate_p2p_def p2p_def test_ma_def test_peerId_def)
  have suffixed: "endsWithPeerId test_ma_self test_peerId"
    by (simp add: test_ma_self_def endsWithPeerId_def encapsulate_p2p_def)
  have inputs: "\<forall>c \<in> set test_calls. \<not> endsWithPeerIdTwice (call_addr c) test_peerId"
    using one two by (simp add: test_calls_def)
  have obs: "observed (run fresh_manager test_calls) = [test_ma]"
    by (simp add: test_calls_def fresh_manager_def observed_addObservedAddr
        test_ma_self_def stripPeerId_def endsWithPeerId_def
        encapsulate_p2p_def p2p_def test_ma_def test_peerId_def)
  have conf: "confirmed (run fresh_manager test_calls) = [test_ma]"
    by (simp add: test_calls_def fresh_manager_def confirmed_confirmObservedAddr
        test_ma_self_def stripPeerId_def endsWithPeerId_def
        encapsulate_p2p_def p2p_def test_ma_def test_peerId_def)
  have mem: "test_ma \<in> set (observed (run (DefaultAddressManager test_peerId noop_filter
                 no_configuration) test_calls))
               \<union> set (confirmed (run (DefaultAddressManager test_peerId noop_filter
                 no_configuration) test_calls))"
    using obs by (simp add: fresh_manager_def)
  have clean: "\<not> endsWithPeerId test_ma test_peerId"
    using observed_confirmed_stripped_and_growing
            [of test_calls test_peerId noop_filter no_configuration,
             THEN conjunct1, THEN mp, OF inputs, THEN bspec, OF mem] .
  show ?thesis using one two suffixed obs conf clean by simp
qed

theorem observed_confirmed_stripped_and_growing_counterexample:
  "getObservedAddrs (addObservedAddr fresh_manager test_ma_self_twice) = [test_ma_self]
   \<and> endsWithPeerId test_ma_self test_peerId
   \<and> endsWithPeerIdTwice test_ma_self_twice test_peerId"
  by (simp add: getObservedAddrs_def observed_addObservedAddr fresh_manager_def
      test_ma_self_twice_def test_ma_self_def stripPeerId_def endsWithPeerId_def
      endsWithPeerIdTwice_def encapsulate_p2p_def p2p_def test_ma_def test_peerId_def)

section \<open>The tests of \<open>address-manager.spec.ts\<close> on the model\<close>

text \<open>
  The tests construct the manager with stubs for the filter and the transport manager; here
  the filter is the no-op filter and the transport reports no active address.
\<close>

lemma test_should_not_need_any_addresses:
  "getListenAddrs fresh_manager = [] \<and> getAnnounceAddrs fresh_manager [] = []"
  by (simp add: fresh_manager_def getListenAddrs_def getAnnounceAddrs_def
      DefaultAddressManager_def no_configuration_def noop_filter_def)

lemma test_should_return_listen_multiaddrs_on_get:
  "getListenAddrs (DefaultAddressManager test_peerId noop_filter
      \<lparr>init_listen = Some listenAddresses, init_announce = None\<rparr>) = listenAddresses
   \<and> getAnnounceAddrs (DefaultAddressManager test_peerId noop_filter
      \<lparr>init_listen = Some listenAddresses, init_announce = None\<rparr>) [] = []"
  by (simp add: getListenAddrs_def getAnnounceAddrs_def DefaultAddressManager_def
      noop_filter_def)

lemma test_should_return_announce_multiaddrs_on_get:
  "getListenAddrs (DefaultAddressManager test_peerId noop_filter
      \<lparr>init_listen = Some listenAddresses, init_announce = Some announceAddreses\<rparr>)
     = listenAddresses
   \<and> getAnnounceAddrs (DefaultAddressManager test_peerId noop_filter
      \<lparr>init_listen = Some listenAddresses, init_announce = Some announceAddreses\<rparr>) []
     = announceAddreses"
  by (simp add: getListenAddrs_def getAnnounceAddrs_def DefaultAddressManager_def
      noop_filter_def announceAddreses_def)

lemma test_should_add_observed_addresses:
  "getObservedAddrs fresh_manager = []
   \<and> length (getObservedAddrs (addObservedAddr fresh_manager test_ma)) = 1"
  by (simp add: getObservedAddrs_def observed_addObservedAddr fresh_manager_def)

end
